theory Spec2Isabelle
  imports Main "HOL-Library.Word"
begin

unbundle bit_operations_syntax

section \<open>Resource usage tracking (Violet/VltResource.h)\<close>

text \<open>
  \<^verbatim>\<open>enum class VltAccess { Read = 0, Write = 1, None = 2 }\<close>. The constructors
  carry the enum's name because \<open>None\<close> is taken by \<open>option\<close>.
\<close>

datatype VltAccess = VltAccess_Read | VltAccess_Write | VltAccess_None

text \<open>
  The two private members of \<^verbatim>\<open>VltResource\<close>, both
  \<^verbatim>\<open>std::atomic<uint32_t>\<close> initialised to \<^verbatim>\<open>0u\<close>. Increment and
  decrement wrap around modulo \<open>2^32\<close>, as the unsigned atomics do.
\<close>

record VltResource =
  m_useCountR :: "32 word"
  m_useCountW :: "32 word"

definition VltResource_init :: VltResource where
  "VltResource_init = \<lparr>m_useCountR = 0, m_useCountW = 0\<rparr>"

text \<open>
  \<^verbatim>\<open>bool isInUse(VltAccess access) const\<close>: a \<^verbatim>\<open>const\<close> method that only
  loads the two counters, hence a function from the counters to the answer with no
  successor state.
\<close>

definition isInUse :: "VltResource \<Rightarrow> VltAccess \<Rightarrow> bool" where
  "isInUse r access =
     (let result = (m_useCountW r \<noteq> 0)
      in if access = VltAccess_Read then (result \<or> m_useCountR r \<noteq> 0) else result)"

text \<open>\<^verbatim>\<open>void acquire(VltAccess access)\<close>\<close>

definition acquire :: "VltResource \<Rightarrow> VltAccess \<Rightarrow> VltResource" where
  "acquire r access =
     (if access \<noteq> VltAccess_None
      then (if access = VltAccess_Read
            then r\<lparr>m_useCountR := m_useCountR r + 1\<rparr>
            else r\<lparr>m_useCountW := m_useCountW r + 1\<rparr>)
      else r)"

text \<open>\<^verbatim>\<open>void release(VltAccess access)\<close>\<close>

definition release :: "VltResource \<Rightarrow> VltAccess \<Rightarrow> VltResource" where
  "release r access =
     (if access \<noteq> VltAccess_None
      then (if access = VltAccess_Read
            then r\<lparr>m_useCountR := m_useCountR r - 1\<rparr>
            else r\<lparr>m_useCountW := m_useCountW r - 1\<rparr>)
      else r)"

text \<open>
  Modelled from the spec: \<^verbatim>\<open>util::sync::spin\<close> of UtilSync.h, which is not among
  the sources. The spec has \<^verbatim>\<open>waitIdle\<close> busy-poll ``up to a bounded retry budget''
  and return ``regardless of success''. \<open>spin budget fn k\<close> evaluates the predicate at
  most \<open>budget\<close> more times, stops at the first poll that succeeds, and returns the number
  of polls made in all, \<open>k\<close> being the number made so far. The predicate takes the index
  of the poll, since the counters it reads are atomics that other threads may change
  between two polls.
\<close>

fun spin :: "nat \<Rightarrow> (nat \<Rightarrow> bool) \<Rightarrow> nat \<Rightarrow> nat" where
  "spin 0 fn k = k"
| "spin (Suc budget) fn k = (if fn k then Suc k else spin budget fn (Suc k))"

text \<open>
  \<^verbatim>\<open>void waitIdle(VltAccess access) const\<close>: calls
  \<^verbatim>\<open>spin(50000, [this, access] { return !isInUse(access); })\<close>. \<open>obs k\<close> is the
  state of the counters that the poll number \<open>k\<close> observes; the result is the number of
  polls made before \<^verbatim>\<open>waitIdle\<close> returned.
\<close>

definition waitIdle :: "(nat \<Rightarrow> VltResource) \<Rightarrow> VltAccess \<Rightarrow> nat" where
  "waitIdle obs access = spin 50000 (\<lambda>k. \<not> isInUse (obs k) access) 0"

section \<open>The Gnm driver (Sce/SceGnmDriver.cpp)\<close>

subsection \<open>Constants, codes and faults\<close>

text \<open>
  The constants \<^verbatim>\<open>MaxPipeId\<close>, \<^verbatim>\<open>MaxQueueId\<close>, \<^verbatim>\<open>VQueueIdBegin\<close> and
  \<^verbatim>\<open>MaxComputeQueueCount\<close> are declared in SceGnmDriver.h and
  \<^verbatim>\<open>util::isPowerOfTwo\<close> in UtilMath.h; neither header is among the sources, so
  all five are parameters of the model. The four numbers are taken as unsigned 32-bit
  values: \<^verbatim>\<open>VQueueIdBegin + pipeId * MaxPipeId + queueId\<close> is then computed in
  \<^verbatim>\<open>uint32_t\<close>, and the \<^verbatim>\<open>int vqueueId\<close> that stores it is compared and
  returned as unsigned. As long as the sum stays below \<open>2^31\<close>, every choice of
  integer type for the constants gives the same results.
\<close>

record driver_consts =
  MaxPipeId :: "32 word"
  MaxQueueId :: "32 word"
  VQueueIdBegin :: "32 word"
  MaxComputeQueueCount :: "32 word"
  util_isPowerOfTwo :: "32 word \<Rightarrow> bool"

text \<open>
  The status codes of sce\_errors.h that the driver names. Their numeric values are not
  among the sources; each macro is one constructor.
\<close>

datatype sce_code =
    SCE_OK
  | SCE_GNM_ERROR_UNKNOWN
  | SCE_GNM_ERROR_COMPUTEQUEUE_INVALID_PIPE_ID
  | SCE_GNM_ERROR_COMPUTEQUEUE_INVALID_QUEUE_ID
  | SCE_GNM_ERROR_COMPUTEQUEUE_INVALID_RING_BASE_ADDR
  | SCE_GNM_ERROR_COMPUTEQUEUE_INVALID_RING_SIZE
  | SCE_GNM_ERROR_COMPUTEQUEUE_INVALID_READ_PTR_ADDR

text \<open>
  What \<^verbatim>\<open>mapComputeQueue\<close> returns in its \<^verbatim>\<open>uint32_t\<close>: one of the named
  codes, or the number computed for \<^verbatim>\<open>vqueueId\<close>.
\<close>

datatype vqueue_result = Code sce_code | VQueueId "32 word"

text \<open>
  Ways in which a call does not return: a failed \<^verbatim>\<open>LOG_ASSERT\<close>, an index outside
  an array (\<^verbatim>\<open>std::array::operator[]\<close> and plain C arrays do not check), a call
  through a null pointer, a store through a pointer that is null or does not point to
  mapped memory.
\<close>

datatype fault = AssertionFailed | OutOfBounds | NullPointer | AccessViolation

subsection \<open>Driver state\<close>

datatype SceQueueType = Graphics | Compute

record SceGpuQueue =
  device :: nat
  queueType :: SceQueueType

record SceGpuCommand =
  buffer :: "64 word"
  size :: "32 word"

type_synonym VltCommandList = nat
type_synonym VkSemaphore = nat

record PresenterSync =
  sync_acquire :: VkSemaphore
  sync_present :: VkSemaphore

record SceGpuSubmission =
  cmdList :: VltCommandList
  wait :: VkSemaphore
  wake :: VkSemaphore

text \<open>
  The calls the driver makes on its collaborators, each with the arguments it passes:
  \<^verbatim>\<open>m_graphicsQueue->record(cmd)\<close>, \<^verbatim>\<open>m_presenter->acquireNextImage(sync, imageIndex)\<close>,
  \<^verbatim>\<open>m_graphicsQueue->submit(submission)\<close> and \<^verbatim>\<open>m_graphicsQueue->present(m_presenter)\<close>.
\<close>

datatype backend_call =
    Queue_record SceGpuCommand
  | Presenter_acquireNextImage nat
  | Queue_submit SceGpuSubmission
  | Queue_present nat

text \<open>
  \<^verbatim>\<open>SceGpuQueue\<close> and \<^verbatim>\<open>ScePresenter\<close> are not among the sources. What their
  calls hand back to the driver is a parameter: the command list that \<^verbatim>\<open>record\<close>
  returns, and the synchronisation pair and image index that \<^verbatim>\<open>acquireNextImage\<close>
  stores through its two reference arguments, each as a function of the calls made so far.
\<close>

record backend =
  record_result :: "backend_call list \<Rightarrow> SceGpuCommand \<Rightarrow> VltCommandList"
  acquire_result :: "backend_call list \<Rightarrow> PresenterSync \<times> 32 word"

text \<open>
  The members of \<^verbatim>\<open>SceGnmDriver\<close> that the functions below touch, and what they
  reach outside the object:
  \<^item> \<open>m_device\<close>, the handle of the device; \<open>m_presenter\<close>, null until
    \<^verbatim>\<open>createPresenter\<close> has run; the graphics queue exists from construction on
    (\<^verbatim>\<open>createGraphicsQueue\<close>) and appears through the calls made on it;
  \<^item> \<open>m_computeQueues\<close>, the array of \<^verbatim>\<open>std::unique_ptr<SceGpuQueue>\<close>, an empty
    pointer being \<open>None\<close>;
  \<^item> \<open>memory\<close>, the byte stored at each address of the process, \<open>None\<close> where no
    memory is mapped, for the store through \<^verbatim>\<open>readPtrAddr\<close>;
  \<^item> \<open>err_log\<close>, the messages passed to \<^verbatim>\<open>LOG_ERR\<close>, oldest first;
  \<^item> \<open>calls\<close>, the calls made on the graphics queue and the presenter, oldest first.
\<close>

record SceGnmDriver =
  m_device :: nat
  m_presenter :: "nat option"
  m_computeQueues :: "SceGpuQueue option list"
  memory :: "64 word \<Rightarrow> 8 word option"
  err_log :: "string list"
  calls :: "backend_call list"

definition LOG_ERR :: "string \<Rightarrow> SceGnmDriver \<Rightarrow> SceGnmDriver" where
  "LOG_ERR msg s = s\<lparr>err_log := err_log s @ [msg]\<rparr>"

definition backend_invoke :: "backend_call \<Rightarrow> SceGnmDriver \<Rightarrow> SceGnmDriver" where
  "backend_invoke c s = s\<lparr>calls := calls s @ [c]\<rparr>"

text \<open>
  A store of a \<^verbatim>\<open>uint32_t\<close> through a pointer, as in
  \<^verbatim>\<open>*(uint32_t*)readPtrAddr = 0\<close>: it writes the four bytes at the address and the
  three that follow, least significant byte first (the build is for x86-64,
  \<^verbatim>\<open>GPCS4_WINDOWS\<close>). It can only be done through a pointer that is not null and
  whose four bytes are mapped; through any other pointer the behaviour is undefined,
  which the callers below turn into the fault \<open>AccessViolation\<close>.
\<close>

definition writable_u32 :: "(64 word \<Rightarrow> 8 word option) \<Rightarrow> 64 word \<Rightarrow> bool" where
  "writable_u32 m a \<longleftrightarrow>
     a \<noteq> 0 \<and> m a \<noteq> None \<and> m (a + 1) \<noteq> None \<and> m (a + 2) \<noteq> None \<and> m (a + 3) \<noteq> None"

definition store_u32 ::
  "(64 word \<Rightarrow> 8 word option) \<Rightarrow> 64 word \<Rightarrow> 32 word \<Rightarrow> (64 word \<Rightarrow> 8 word option)" where
  "store_u32 m a v =
     m(a \<mapsto> ucast v,
       a + 1 \<mapsto> ucast (drop_bit 8 v),
       a + 2 \<mapsto> ucast (drop_bit 16 v),
       a + 3 \<mapsto> ucast (drop_bit 24 v))"

text \<open>
  Modelled from the spec: the declaration of \<^verbatim>\<open>m_computeQueues\<close> in SceGnmDriver.h,
  which is not among the sources. The spec calls it a fixed-size array of
  \<^verbatim>\<open>MaxComputeQueueCount\<close> slots.
\<close>

definition slots_declared :: "driver_consts \<Rightarrow> SceGnmDriver \<Rightarrow> bool" where
  "slots_declared c s \<longleftrightarrow> length (m_computeQueues s) = unat (MaxComputeQueueCount c)"

subsection \<open>Compute queues\<close>

text \<open>
  \<^verbatim>\<open>uint32_t mapComputeQueue(pipeId, queueId, ringBaseAddr, ringSizeInDW, readPtrAddr)\<close>.
  Each \<^verbatim>\<open>break\<close> of the source's \<^verbatim>\<open>do { } while (false)\<close> is a branch that
  returns the current \<^verbatim>\<open>vqueueId\<close>; its initial value,
  \<^verbatim>\<open>SCE_GNM_ERROR_UNKNOWN\<close>, is overwritten on every path that returns. The
  store through \<^verbatim>\<open>readPtrAddr\<close> (line 222) comes after the five checks, none of
  which looks at whether the pointer is null or mapped, and before the id is computed
  and compared (lines 224 to 229).
\<close>

definition mapComputeQueue ::
  "driver_consts \<Rightarrow> SceGnmDriver \<Rightarrow> 32 word \<Rightarrow> 32 word \<Rightarrow> 64 word \<Rightarrow> 32 word \<Rightarrow> 64 word
     \<Rightarrow> fault + (vqueue_result \<times> SceGnmDriver)" where
  "mapComputeQueue c s pipeId queueId ringBaseAddr ringSizeInDW readPtrAddr =
     (if pipeId \<ge> MaxPipeId c
        then Inr (Code SCE_GNM_ERROR_COMPUTEQUEUE_INVALID_PIPE_ID, s)
      else if queueId \<ge> MaxQueueId c
        then Inr (Code SCE_GNM_ERROR_COMPUTEQUEUE_INVALID_QUEUE_ID, s)
      else if ringBaseAddr mod 256 \<noteq> 0
        then Inr (Code SCE_GNM_ERROR_COMPUTEQUEUE_INVALID_RING_BASE_ADDR, s)
      else if \<not> util_isPowerOfTwo c ringSizeInDW
        then Inr (Code SCE_GNM_ERROR_COMPUTEQUEUE_INVALID_RING_SIZE, s)
      else if readPtrAddr mod 4 \<noteq> 0
        then Inr (Code SCE_GNM_ERROR_COMPUTEQUEUE_INVALID_READ_PTR_ADDR, s)
      else if \<not> writable_u32 (memory s) readPtrAddr
        then Inl AccessViolation
      else
        let s1 = s\<lparr>memory := store_u32 (memory s) readPtrAddr 0\<rparr>;
            vqueueId = VQueueIdBegin c + pipeId * MaxPipeId c + queueId
        in if vqueueId \<ge> MaxComputeQueueCount c
             then Inr (VQueueId vqueueId,
                       LOG_ERR ''vqueueId is larger than max queue count.'' s1)
           else
             let vqueueIndex = vqueueId - VQueueIdBegin c
             in if unat vqueueIndex < length (m_computeQueues s1)
                  then Inr (VQueueId vqueueId,
                            s1\<lparr>m_computeQueues := (m_computeQueues s1)
                                  [unat vqueueIndex :=
                                     Some \<lparr>device = m_device s1, queueType = Compute\<rparr>]\<rparr>)
                else Inl OutOfBounds)"

text \<open>
  \<^verbatim>\<open>void unmapComputeQueue(uint32_t vqueueId)\<close>. The only test is against
  \<^verbatim>\<open>MaxComputeQueueCount\<close>; \<^verbatim>\<open>vqueueId - VQueueIdBegin\<close> is an unsigned
  subtraction and wraps around when \<^verbatim>\<open>vqueueId\<close> is below \<^verbatim>\<open>VQueueIdBegin\<close>.
\<close>

definition unmapComputeQueue ::
  "driver_consts \<Rightarrow> SceGnmDriver \<Rightarrow> 32 word \<Rightarrow> fault + SceGnmDriver" where
  "unmapComputeQueue c s vqueueId =
     (if vqueueId \<ge> MaxComputeQueueCount c
        then Inr (LOG_ERR ''vqueueId is larger than max queue count.'' s)
      else
        let vqueueIndex = vqueueId - VQueueIdBegin c
        in if unat vqueueIndex < length (m_computeQueues s)
             then Inr (s\<lparr>m_computeQueues := (m_computeQueues s)[unat vqueueIndex := None]\<rparr>)
           else Inl OutOfBounds)"

subsection \<open>Submission\<close>

text \<open>
  \<^verbatim>\<open>void submitPresent(const Rc<VltCommandList>& cmdList)\<close>: three calls in a row,
  the first through \<^verbatim>\<open>m_presenter\<close>.
\<close>

definition submitPresent ::
  "backend \<Rightarrow> SceGnmDriver \<Rightarrow> VltCommandList \<Rightarrow> fault + SceGnmDriver" where
  "submitPresent bk s cmdList0 =
     (case m_presenter s of
        None \<Rightarrow> Inl NullPointer
      | Some presenter \<Rightarrow>
          let (sync, imageIndex) = acquire_result bk (calls s);
              s1 = backend_invoke (Presenter_acquireNextImage presenter) s;
              submission = \<lparr>cmdList = cmdList0,
                            wait = sync_acquire sync,
                            wake = sync_present sync\<rparr>;
              s2 = backend_invoke (Queue_submit submission) s1;
              s3 = backend_invoke (Queue_present presenter) s2
          in Inr s3)"

text \<open>
  Modelled from the spec: the macro \<^verbatim>\<open>LOG_ASSERT\<close>, whose definition is not among
  the sources. The spec calls a failed assertion fatal: it stops the process and is not
  a returned error. \<open>LOG_ASSERT cond rest\<close> is \<open>rest\<close> when the condition holds and the
  fault otherwise.
\<close>

definition LOG_ASSERT :: "bool \<Rightarrow> fault + 'a \<Rightarrow> fault + 'a" where
  "LOG_ASSERT cond rest = (if cond then rest else Inl AssertionFailed)"

text \<open>
  \<^verbatim>\<open>int submitAndFlipCommandBuffers(count, dcbGpuAddrs, dcbSizesInBytes, ccbGpuAddrs,
  ccbSizesInBytes, videoOutHandle, displayBufferIndex, flipMode, flipArg)\<close>. The four
  arrays are lists; reading element 0 of an empty one is the fault \<open>OutOfBounds\<close>.
\<close>

definition submitAndFlipCommandBuffers ::
  "backend \<Rightarrow> SceGnmDriver \<Rightarrow> 32 word \<Rightarrow> 64 word list \<Rightarrow> 32 word list \<Rightarrow> 64 word list
     \<Rightarrow> 32 word list \<Rightarrow> 32 word \<Rightarrow> 32 word \<Rightarrow> 32 word \<Rightarrow> 64 word
     \<Rightarrow> fault + (sce_code \<times> SceGnmDriver)" where
  "submitAndFlipCommandBuffers bk s count dcbGpuAddrs dcbSizesInBytes ccbGpuAddrs
       ccbSizesInBytes videoOutHandle displayBufferIndex flipMode flipArg =
     LOG_ASSERT (count = 1)
       (case dcbGpuAddrs of
          [] \<Rightarrow> Inl OutOfBounds
        | addr0 # _ \<Rightarrow>
            (case dcbSizesInBytes of
               [] \<Rightarrow> Inl OutOfBounds
             | size0 # _ \<Rightarrow>
                 let cmd = \<lparr>buffer = addr0, size = size0\<rparr>;
                     recorded = record_result bk (calls s) cmd;
                     s1 = backend_invoke (Queue_record cmd) s
                 in (case submitPresent bk s1 recorded of
                       Inl f \<Rightarrow> Inl f
                     | Inr s2 \<Rightarrow> Inr (SCE_OK, s2))))"

text \<open>
  \<^verbatim>\<open>int submitCommandBuffers(count, dcbGpuAddrs, dcbSizesInBytes, ccbGpuAddrs,
  ccbSizesInBytes)\<close> forwards with the four flip arguments at zero.
\<close>

definition submitCommandBuffers ::
  "backend \<Rightarrow> SceGnmDriver \<Rightarrow> 32 word \<Rightarrow> 64 word list \<Rightarrow> 32 word list \<Rightarrow> 64 word list
     \<Rightarrow> 32 word list \<Rightarrow> fault + (sce_code \<times> SceGnmDriver)" where
  "submitCommandBuffers bk s count dcbGpuAddrs dcbSizesInBytes ccbGpuAddrs ccbSizesInBytes =
     submitAndFlipCommandBuffers bk s count dcbGpuAddrs dcbSizesInBytes ccbGpuAddrs
       ccbSizesInBytes 0 0 0 0"

subsection \<open>The validation rules as the specification lists them\<close>

text \<open>
  The five preconditions of \<^verbatim>\<open>mapComputeQueue\<close> in the order of the specification,
  each with the code that names it, written from the specification's words and not from
  the source: pipe id below \<^verbatim>\<open>MaxPipeId\<close>, queue id below \<^verbatim>\<open>MaxQueueId\<close>, ring
  base address a multiple of 256, ring size a power of two, read pointer address a
  multiple of 4. \<open>spec_first_violated\<close> is the code of the first precondition that does
  not hold, if there is one.
\<close>

definition spec_preconditions ::
  "driver_consts \<Rightarrow> 32 word \<Rightarrow> 32 word \<Rightarrow> 64 word \<Rightarrow> 32 word \<Rightarrow> 64 word
     \<Rightarrow> (bool \<times> sce_code) list" where
  "spec_preconditions c pipeId queueId ringBaseAddr ringSizeInDW readPtrAddr =
     [(unat pipeId < unat (MaxPipeId c), SCE_GNM_ERROR_COMPUTEQUEUE_INVALID_PIPE_ID),
      (unat queueId < unat (MaxQueueId c), SCE_GNM_ERROR_COMPUTEQUEUE_INVALID_QUEUE_ID),
      (256 dvd unat ringBaseAddr, SCE_GNM_ERROR_COMPUTEQUEUE_INVALID_RING_BASE_ADDR),
      (util_isPowerOfTwo c ringSizeInDW, SCE_GNM_ERROR_COMPUTEQUEUE_INVALID_RING_SIZE),
      (4 dvd unat readPtrAddr, SCE_GNM_ERROR_COMPUTEQUEUE_INVALID_READ_PTR_ADDR)]"

fun first_failing :: "(bool \<times> sce_code) list \<Rightarrow> sce_code option" where
  "first_failing [] = None"
| "first_failing ((ok, code) # rest) = (if ok then first_failing rest else Some code)"

definition spec_first_violated ::
  "driver_consts \<Rightarrow> 32 word \<Rightarrow> 32 word \<Rightarrow> 64 word \<Rightarrow> 32 word \<Rightarrow> 64 word \<Rightarrow> sce_code option" where
  "spec_first_violated c pipeId queueId ringBaseAddr ringSizeInDW readPtrAddr =
     first_failing (spec_preconditions c pipeId queueId ringBaseAddr ringSizeInDW readPtrAddr)"

text \<open>
  The identifier range of the specification, \<open>[VQueueIdBegin, MaxComputeQueueCount)\<close>.
\<close>

definition valid_vqueue_id :: "driver_consts \<Rightarrow> 32 word \<Rightarrow> bool" where
  "valid_vqueue_id c vqueueId \<longleftrightarrow>
     VQueueIdBegin c \<le> vqueueId \<and> vqueueId < MaxComputeQueueCount c"

text \<open>The value a call returned, if it returned.\<close>

definition outcome_value :: "fault + ('a \<times> SceGnmDriver) \<Rightarrow> 'a option" where
  "outcome_value r = (case r of Inl f \<Rightarrow> None | Inr (v, s) \<Rightarrow> Some v)"

subsection \<open>Concrete constants and states\<close>

text \<open>
  Modelled from the spec: \<^verbatim>\<open>util::isPowerOfTwo\<close> of UtilMath.h, which is not among
  the sources: nonzero with a single bit set. The theorems hold for every predicate in
  its place; this one fills the parameter in the concrete instances.
\<close>

definition isPowerOfTwo :: "32 word \<Rightarrow> bool" where
  "isPowerOfTwo x \<longleftrightarrow> x \<noteq> 0 \<and> x AND (x - 1) = 0"

text \<open>
  Two sets of values for the constants, for the concrete instances: seven pipes of
  eight queues and eight pipes of eight queues, both with ids from 1 and as many slots
  as pipes times queues.
\<close>

definition consts_7x8 :: driver_consts where
  "consts_7x8 = \<lparr>MaxPipeId = 7, MaxQueueId = 8, VQueueIdBegin = 1,
                  MaxComputeQueueCount = 56, util_isPowerOfTwo = isPowerOfTwo\<rparr>"


text \<open>
  A driver with \<open>n\<close> empty compute queue slots, no presenter, no call made and nothing
  logged, over a memory that is mapped everywhere and holds \<open>fill\<close> in every byte.
\<close>

definition fresh_driver :: "nat \<Rightarrow> 8 word \<Rightarrow> SceGnmDriver" where
  "fresh_driver n fill =
     \<lparr>m_device = 0, m_presenter = None, m_computeQueues = replicate n None,
      memory = (\<lambda>a. Some fill), err_log = [], calls = []\<rparr>"

text \<open>A backend that numbers the command lists and semaphores it hands out.\<close>

definition counting_backend :: backend where
  "counting_backend =
     \<lparr>record_result = (\<lambda>history cmd. length history),
      acquire_result = (\<lambda>history. (\<lparr>sync_acquire = 2 * length history,
                                      sync_present = 2 * length history + 1\<rparr>, 0))\<rparr>"

section \<open>Properties of the resource tracker\<close>

lemma spin_upper: "spin budget fn k \<le> k + budget"
proof (induction budget arbitrary: k)
  case 0
  show ?case by simp
next
  case (Suc budget)
  have "spin budget fn (Suc k) \<le> Suc k + budget" by (rule Suc.IH)
  then show ?case by simp
qed

lemma spin_lower: "k \<le> spin budget fn k"
proof (induction budget arbitrary: k)
  case 0
  show ?case by simp
next
  case (Suc budget)
  have "Suc k \<le> spin budget fn (Suc k)" by (rule Suc.IH)
  then show ?case by simp
qed

lemma spin_positive: "0 < budget \<Longrightarrow> k < spin budget fn k"
proof (cases budget)
  case 0
  assume "0 < budget"
  with 0 show ?thesis by simp
next
  case (Suc b)
  have "Suc k \<le> spin b fn (Suc k)" by (rule spin_lower)
  with Suc show ?thesis by simp
qed

lemma spin_never: "(\<And>j. \<not> fn j) \<Longrightarrow> spin budget fn k = k + budget"
  by (induction budget arbitrary: k) auto

lemma spin_first: "fn k \<Longrightarrow> 0 < budget \<Longrightarrow> spin budget fn k = Suc k"
  by (cases budget) auto

text \<open>
  C7. \<^verbatim>\<open>isInUse(Write)\<close> is true exactly when the write counter is nonzero, and
  \<^verbatim>\<open>isInUse(Read)\<close> exactly when the read counter or the write counter is nonzero.
  The query is a function of the two counters alone and yields no successor state: it
  cannot modify a counter.
\<close>

theorem isInUse_read_write:
  "(isInUse r VltAccess_Write \<longleftrightarrow> m_useCountW r \<noteq> 0) \<and>
   (isInUse r VltAccess_Read \<longleftrightarrow> m_useCountR r \<noteq> 0 \<or> m_useCountW r \<noteq> 0)"
  by (auto simp: isInUse_def)

theorem isInUse_read_write_witness:
  "isInUse \<lparr>m_useCountR = 3, m_useCountW = 0\<rparr> VltAccess_Read \<and>
   \<not> isInUse \<lparr>m_useCountR = 3, m_useCountW = 0\<rparr> VltAccess_Write"
  using isInUse_read_write [of "\<lparr>m_useCountR = 3, m_useCountW = 0\<rparr>"] by simp

text \<open>
  C8. From both counters at zero, \<^verbatim>\<open>acquire(Write)\<close> then \<^verbatim>\<open>acquire(Read)\<close>
  makes \<^verbatim>\<open>isInUse(Read)\<close> and \<^verbatim>\<open>isInUse(Write)\<close> true; the two matching
  releases, in either order, make both false again; and in every state
  \<^verbatim>\<open>acquire(None)\<close> and \<^verbatim>\<open>release(None)\<close> change nothing.
\<close>

theorem acquire_release_cycle:
  "isInUse (acquire (acquire VltResource_init VltAccess_Write) VltAccess_Read) VltAccess_Read \<and>
   isInUse (acquire (acquire VltResource_init VltAccess_Write) VltAccess_Read) VltAccess_Write \<and>
   \<not> isInUse (release (release (acquire (acquire VltResource_init VltAccess_Write)
         VltAccess_Read) VltAccess_Read) VltAccess_Write) VltAccess_Read \<and>
   \<not> isInUse (release (release (acquire (acquire VltResource_init VltAccess_Write)
         VltAccess_Read) VltAccess_Read) VltAccess_Write) VltAccess_Write \<and>
   \<not> isInUse (release (release (acquire (acquire VltResource_init VltAccess_Write)
         VltAccess_Read) VltAccess_Write) VltAccess_Read) VltAccess_Read \<and>
   \<not> isInUse (release (release (acquire (acquire VltResource_init VltAccess_Write)
         VltAccess_Read) VltAccess_Write) VltAccess_Read) VltAccess_Write \<and>
   acquire r VltAccess_None = r \<and>
   release r VltAccess_None = r"
  by (simp add: isInUse_def acquire_def release_def VltResource_init_def)

theorem acquire_release_cycle_witness:
  "acquire \<lparr>m_useCountR = 7, m_useCountW = 2\<rparr> VltAccess_None
     = \<lparr>m_useCountR = 7, m_useCountW = 2\<rparr> \<and>
   release \<lparr>m_useCountR = 7, m_useCountW = 2\<rparr> VltAccess_None
     = \<lparr>m_useCountR = 7, m_useCountW = 2\<rparr> \<and>
   isInUse (acquire (acquire VltResource_init VltAccess_Write) VltAccess_Read) VltAccess_Write"
  using acquire_release_cycle [of "\<lparr>m_useCountR = 7, m_useCountW = 2\<rparr>"] by simp

text \<open>
  C9. \<^verbatim>\<open>waitIdle(access)\<close> polls \<^verbatim>\<open>isInUse(access)\<close> at most 50000 times and
  then returns, whatever the counters do: at least one poll is made, a resource that is
  idle at the first poll ends the wait there, and a resource that never becomes idle
  ends it after exactly 50000 polls. The wait reads the counters and returns no
  successor state.
\<close>

theorem waitIdle_bounded:
  "1 \<le> waitIdle obs access \<and> waitIdle obs access \<le> 50000 \<and>
   (\<not> isInUse (obs 0) access \<longrightarrow> waitIdle obs access = 1) \<and>
   ((\<forall>k. isInUse (obs k) access) \<longrightarrow> waitIdle obs access = 50000)"
proof -
  let ?fn = "\<lambda>k. \<not> isInUse (obs k) access"
  have up: "waitIdle obs access \<le> 50000"
    using spin_upper [of 50000 ?fn 0] by (simp add: waitIdle_def)
  have first: "\<not> isInUse (obs 0) access \<Longrightarrow> waitIdle obs access = 1"
    using spin_first [of ?fn 0 50000] by (simp add: waitIdle_def)
  have never: "(\<forall>k. isInUse (obs k) access) \<Longrightarrow> waitIdle obs access = 50000"
    using spin_never [of ?fn 50000 0] by (simp add: waitIdle_def)
  have low: "1 \<le> waitIdle obs access"
    using spin_positive [of 50000 0 ?fn] by (simp add: waitIdle_def)
  show ?thesis using up first never low by blast
qed

theorem waitIdle_bounded_witness:
  "waitIdle (\<lambda>k. \<lparr>m_useCountR = 0, m_useCountW = 1\<rparr>) VltAccess_Read = 50000 \<and>
   waitIdle (\<lambda>k. VltResource_init) VltAccess_Read = 1"
proof -
  have busy: "\<forall>k. isInUse ((\<lambda>k. \<lparr>m_useCountR = 0, m_useCountW = 1\<rparr>) k) VltAccess_Read"
    by (simp add: isInUse_def)
  have idle: "\<not> isInUse ((\<lambda>k. VltResource_init) 0) VltAccess_Read"
    by (simp add: isInUse_def VltResource_init_def)
  have a: "waitIdle (\<lambda>k. \<lparr>m_useCountR = 0, m_useCountW = 1\<rparr>) VltAccess_Read = 50000"
    using waitIdle_bounded [of "\<lambda>k. \<lparr>m_useCountR = 0, m_useCountW = 1\<rparr>" VltAccess_Read]
      busy by blast
  have b: "waitIdle (\<lambda>k. VltResource_init) VltAccess_Read = 1"
    using waitIdle_bounded [of "\<lambda>k. VltResource_init" VltAccess_Read] idle by blast
  from a b show ?thesis by simp
qed

text \<open>
  C10. \<^verbatim>\<open>isInUse(None)\<close> answers as \<^verbatim>\<open>isInUse(Write)\<close> does: true exactly
  when the write counter is nonzero, whatever the read counter holds.
\<close>

theorem isInUse_none:
  "isInUse r VltAccess_None = isInUse r VltAccess_Write \<and>
   (isInUse r VltAccess_None \<longleftrightarrow> m_useCountW r \<noteq> 0)"
  by (simp add: isInUse_def)

theorem isInUse_none_witness:
  "\<not> isInUse \<lparr>m_useCountR = 5, m_useCountW = 0\<rparr> VltAccess_None \<and>
   isInUse \<lparr>m_useCountR = 0, m_useCountW = 1\<rparr> VltAccess_None"
  using isInUse_none [of "\<lparr>m_useCountR = 5, m_useCountW = 0\<rparr>", THEN conjunct2]
    isInUse_none [of "\<lparr>m_useCountR = 0, m_useCountW = 1\<rparr>", THEN conjunct2]
  by simp

section \<open>Properties of the compute queue mapping\<close>

lemma word_mod_pow_zero_iff:
  "(a :: 64 word) mod 256 = 0 \<longleftrightarrow> 256 dvd unat a"
  "(a :: 64 word) mod 4 = 0 \<longleftrightarrow> 4 dvd unat a"
  by (simp_all add: word_eq_iff_unsigned [where 'a = nat] unat_mod mod_eq_0_iff_dvd)

text \<open>
  C1. \<^verbatim>\<open>mapComputeQueue\<close> checks the five preconditions in the order of the
  specification: whenever one of them is violated, the call returns the code of the
  first violated one and leaves the driver as it was; when none is violated no code is
  returned; and the five codes are pairwise distinct.
\<close>

theorem mapComputeQueue_validation_order:
  "(\<forall>code. spec_first_violated c pipeId queueId ringBaseAddr ringSizeInDW readPtrAddr = Some code
      \<longrightarrow> mapComputeQueue c s pipeId queueId ringBaseAddr ringSizeInDW readPtrAddr
            = Inr (Code code, s)) \<and>
   (spec_first_violated c pipeId queueId ringBaseAddr ringSizeInDW readPtrAddr = None
      \<longrightarrow> (\<forall>code s'. mapComputeQueue c s pipeId queueId ringBaseAddr ringSizeInDW readPtrAddr
            \<noteq> Inr (Code code, s'))) \<and>
   distinct (map snd (spec_preconditions c pipeId queueId ringBaseAddr ringSizeInDW readPtrAddr))"
  by (simp add: spec_first_violated_def spec_preconditions_def mapComputeQueue_def
      word_mod_pow_zero_iff word_less_nat_alt word_le_nat_alt not_less Let_def)

theorem mapComputeQueue_validation_order_witness:
  "mapComputeQueue consts_7x8 (fresh_driver 56 0) 7 8 257 3 4097
     = Inr (Code SCE_GNM_ERROR_COMPUTEQUEUE_INVALID_PIPE_ID, fresh_driver 56 0) \<and>
   mapComputeQueue consts_7x8 (fresh_driver 56 0) 6 8 257 3 4097
     = Inr (Code SCE_GNM_ERROR_COMPUTEQUEUE_INVALID_QUEUE_ID, fresh_driver 56 0) \<and>
   mapComputeQueue consts_7x8 (fresh_driver 56 0) 6 7 257 3 4097
     = Inr (Code SCE_GNM_ERROR_COMPUTEQUEUE_INVALID_RING_BASE_ADDR, fresh_driver 56 0) \<and>
   mapComputeQueue consts_7x8 (fresh_driver 56 0) 6 7 256 3 4097
     = Inr (Code SCE_GNM_ERROR_COMPUTEQUEUE_INVALID_RING_SIZE, fresh_driver 56 0) \<and>
   mapComputeQueue consts_7x8 (fresh_driver 56 0) 6 7 256 64 4097
     = Inr (Code SCE_GNM_ERROR_COMPUTEQUEUE_INVALID_READ_PTR_ADDR, fresh_driver 56 0) \<and>
   mapComputeQueue consts_7x8 (fresh_driver 56 0) 6 7 256 64 4096
     \<noteq> Inr (Code SCE_GNM_ERROR_UNKNOWN, fresh_driver 56 0)"
  using mapComputeQueue_validation_order [of consts_7x8 7 8 257 3 4097 "fresh_driver 56 0"]
    mapComputeQueue_validation_order [of consts_7x8 6 8 257 3 4097 "fresh_driver 56 0"]
    mapComputeQueue_validation_order [of consts_7x8 6 7 257 3 4097 "fresh_driver 56 0"]
    mapComputeQueue_validation_order [of consts_7x8 6 7 256 3 4097 "fresh_driver 56 0"]
    mapComputeQueue_validation_order [of consts_7x8 6 7 256 64 4097 "fresh_driver 56 0"]
    mapComputeQueue_validation_order [of consts_7x8 6 7 256 64 4096 "fresh_driver 56 0"]
  by (simp add: spec_first_violated_def spec_preconditions_def consts_7x8_def isPowerOfTwo_def)


lemma checks_pass:
  "spec_first_violated c pipeId queueId ringBaseAddr ringSizeInDW readPtrAddr = None \<longleftrightarrow>
     pipeId < MaxPipeId c \<and> queueId < MaxQueueId c \<and> ringBaseAddr mod 256 = 0 \<and>
     util_isPowerOfTwo c ringSizeInDW \<and> readPtrAddr mod 4 = 0"
  by (simp add: spec_first_violated_def spec_preconditions_def word_mod_pow_zero_iff
      word_less_nat_alt)


lemma mapComputeQueue_checked:
  assumes "pipeId < MaxPipeId c" and "queueId < MaxQueueId c"
    and "ringBaseAddr mod 256 = 0" and "util_isPowerOfTwo c ringSizeInDW"
    and "readPtrAddr mod 4 = 0" and "writable_u32 (memory s) readPtrAddr"
  shows "mapComputeQueue c s pipeId queueId ringBaseAddr ringSizeInDW readPtrAddr =
     (if MaxComputeQueueCount c \<le> VQueueIdBegin c + pipeId * MaxPipeId c + queueId
      then Inr (VQueueId (VQueueIdBegin c + pipeId * MaxPipeId c + queueId),
                LOG_ERR ''vqueueId is larger than max queue count.''
                  (s\<lparr>memory := store_u32 (memory s) readPtrAddr 0\<rparr>))
      else if unat (pipeId * MaxPipeId c + queueId) < length (m_computeQueues s)
      then Inr (VQueueId (VQueueIdBegin c + pipeId * MaxPipeId c + queueId),
                s\<lparr>memory := store_u32 (memory s) readPtrAddr 0,
                  m_computeQueues := (m_computeQueues s)
                    [unat (pipeId * MaxPipeId c + queueId) :=
                       Some \<lparr>device = m_device s, queueType = Compute\<rparr>]\<rparr>)
      else Inl OutOfBounds)"
proof -
  have idx: "VQueueIdBegin c + pipeId * MaxPipeId c + queueId - VQueueIdBegin c
      = pipeId * MaxPipeId c + queueId"
    by simp
  show ?thesis
    using assms
    by (simp add: mapComputeQueue_def Let_def not_le [symmetric] idx
        del: add_diff_cancel_left')
qed



section \<open>Properties of the virtual queue identifiers\<close>

lemma vqueue_id_unat:
  assumes p: "pipeId < MaxPipeId c" and q: "queueId < MaxQueueId c"
    and nowrap: "unat (VQueueIdBegin c) + unat (MaxPipeId c) * unat (MaxPipeId c)
       + unat (MaxQueueId c) \<le> 2 ^ 31"
  shows "unat (VQueueIdBegin c + pipeId * MaxPipeId c + queueId)
       = unat (VQueueIdBegin c) + unat pipeId * unat (MaxPipeId c) + unat queueId"
    and "unat (pipeId * MaxPipeId c + queueId) = unat pipeId * unat (MaxPipeId c) + unat queueId"
proof -
  have p': "unat pipeId < unat (MaxPipeId c)" using p by (simp add: word_less_nat_alt)
  have q': "unat queueId < unat (MaxQueueId c)" using q by (simp add: word_less_nat_alt)
  have "unat pipeId * unat (MaxPipeId c) \<le> unat (MaxPipeId c) * unat (MaxPipeId c)"
    using p' by simp
  then have bound:
    "unat (VQueueIdBegin c) + unat pipeId * unat (MaxPipeId c) + unat queueId < 2 ^ 31"
    using q' nowrap by linarith
  have m: "unat (pipeId * MaxPipeId c) = unat pipeId * unat (MaxPipeId c)"
    using bound by (simp add: unat_mult_lem [THEN iffD1])
  have a1: "unat (VQueueIdBegin c + pipeId * MaxPipeId c)
      = unat (VQueueIdBegin c) + unat pipeId * unat (MaxPipeId c)"
    using bound m by (simp add: unat_add_lem [THEN iffD1])
  show "unat (VQueueIdBegin c + pipeId * MaxPipeId c + queueId)
       = unat (VQueueIdBegin c) + unat pipeId * unat (MaxPipeId c) + unat queueId"
    using bound a1 by (simp add: unat_add_lem [THEN iffD1])
  show "unat (pipeId * MaxPipeId c + queueId) = unat pipeId * unat (MaxPipeId c) + unat queueId"
    using bound m by (simp add: unat_add_lem [THEN iffD1])
qed


lemma mapComputeQueue_valid_returns:
  assumes p: "pipeId < MaxPipeId c" and q: "queueId < MaxQueueId c"
    and rb: "ringBaseAddr mod 256 = 0" and rs: "util_isPowerOfTwo c ringSizeInDW"
    and rp: "readPtrAddr mod 4 = 0" and mapped: "writable_u32 (memory s) readPtrAddr"
    and nowrap: "unat (VQueueIdBegin c) + unat (MaxPipeId c) * unat (MaxPipeId c)
       + unat (MaxQueueId c) \<le> 2 ^ 31"
    and slots: "slots_declared c s"
  shows "outcome_value (mapComputeQueue c s pipeId queueId ringBaseAddr ringSizeInDW readPtrAddr)
           = Some (VQueueId (VQueueIdBegin c + pipeId * MaxPipeId c + queueId))"
proof -
  let ?id = "VQueueIdBegin c + pipeId * MaxPipeId c + queueId"
  note m = mapComputeQueue_checked [OF p q rb rs rp mapped]
  show ?thesis
  proof (cases "MaxComputeQueueCount c \<le> ?id")
    case True
    then show ?thesis using m by (simp add: outcome_value_def)
  next
    case False
    then have lt: "unat ?id < unat (MaxComputeQueueCount c)"
      by (simp add: word_less_nat_alt not_le)
    have "unat (pipeId * MaxPipeId c + queueId) \<le> unat ?id"
      using vqueue_id_unat [OF p q nowrap] by simp
    then have inb: "unat (pipeId * MaxPipeId c + queueId) < length (m_computeQueues s)"
      using lt slots by (simp add: slots_declared_def)
    show ?thesis using m False inb by (simp add: outcome_value_def)
  qed
qed

text \<open>
  C3. The id is computed as \<^verbatim>\<open>VQueueIdBegin + pipeId * MaxPipeId + queueId\<close>: the
  stride between two pipes is the number of pipe ids, not the number of queue ids.
  Whenever the constants give more queue ids than pipe ids, and at least two pipe ids,
  the pairs \<open>(0, MaxPipeId)\<close> and \<open>(1, 0)\<close> are distinct, both pass the five checks,
  and \<^verbatim>\<open>mapComputeQueue\<close> returns the same id, \<^verbatim>\<open>VQueueIdBegin + MaxPipeId\<close>,
  for both, in whatever states the two calls are made (with an array of
  \<^verbatim>\<open>MaxComputeQueueCount\<close> slots, a mapped \<^verbatim>\<open>readPtrAddr\<close> and constants small
  enough for the sum not to wrap around).
\<close>

theorem mapComputeQueue_stride_collision:
  assumes few: "1 < MaxPipeId c" and more: "MaxPipeId c < MaxQueueId c"
    and rb: "ringBaseAddr mod 256 = 0" and rs: "util_isPowerOfTwo c ringSizeInDW"
    and rp: "readPtrAddr mod 4 = 0"
    and mapped: "writable_u32 (memory s) readPtrAddr" "writable_u32 (memory t) readPtrAddr"
    and nowrap: "unat (VQueueIdBegin c) + unat (MaxPipeId c) * unat (MaxPipeId c)
       + unat (MaxQueueId c) \<le> 2 ^ 31"
    and slots: "slots_declared c s" "slots_declared c t"
  shows
    "spec_first_violated c 0 (MaxPipeId c) ringBaseAddr ringSizeInDW readPtrAddr = None \<and>
     spec_first_violated c 1 0 ringBaseAddr ringSizeInDW readPtrAddr = None \<and>
     (0, MaxPipeId c) \<noteq> (1 :: 32 word, 0 :: 32 word) \<and>
     outcome_value
        (mapComputeQueue c s 0 (MaxPipeId c) ringBaseAddr ringSizeInDW readPtrAddr)
       = Some (VQueueId (VQueueIdBegin c + MaxPipeId c)) \<and>
     outcome_value (mapComputeQueue c t 1 0 ringBaseAddr ringSizeInDW readPtrAddr)
       = Some (VQueueId (VQueueIdBegin c + MaxPipeId c))"
proof -
  have p0: "(0 :: 32 word) < MaxPipeId c"
    using few by (simp add: word_less_nat_alt)
  have q0: "(0 :: 32 word) < MaxQueueId c"
    using more p0 by (simp add: word_less_nat_alt)
  have a: "spec_first_violated c 0 (MaxPipeId c) ringBaseAddr ringSizeInDW readPtrAddr = None"
    using p0 more rb rs rp by (simp add: checks_pass)
  have b: "spec_first_violated c 1 0 ringBaseAddr ringSizeInDW readPtrAddr = None"
    using few q0 rb rs rp by (simp add: checks_pass)
  have d: "(0, MaxPipeId c) \<noteq> (1 :: 32 word, 0 :: 32 word)" by simp
  have e: "outcome_value
        (mapComputeQueue c s 0 (MaxPipeId c) ringBaseAddr ringSizeInDW readPtrAddr)
       = Some (VQueueId (VQueueIdBegin c + MaxPipeId c))"
    using mapComputeQueue_valid_returns [OF p0 more rb rs rp mapped(1) nowrap slots(1)]
    by simp
  have f: "outcome_value (mapComputeQueue c t 1 0 ringBaseAddr ringSizeInDW readPtrAddr)
       = Some (VQueueId (VQueueIdBegin c + MaxPipeId c))"
    using mapComputeQueue_valid_returns [OF few q0 rb rs rp mapped(2) nowrap slots(2)]
    by simp
  show ?thesis by (rule conjI [OF a conjI [OF b conjI [OF d conjI [OF e f]]]])
qed

theorem mapComputeQueue_stride_collision_witness:
  "outcome_value (mapComputeQueue consts_7x8 (fresh_driver 56 0) 0 7 256 64 4096)
     = Some (VQueueId 8) \<and>
   outcome_value (mapComputeQueue consts_7x8 (fresh_driver 56 0) 1 0 256 64 4096)
     = Some (VQueueId 8)"
proof -
  have h: "1 < MaxPipeId consts_7x8" "MaxPipeId consts_7x8 < MaxQueueId consts_7x8"
    "(256 :: 64 word) mod 256 = 0" "util_isPowerOfTwo consts_7x8 64"
    "(4096 :: 64 word) mod 4 = 0"
    "writable_u32 (memory (fresh_driver 56 0)) 4096"
    "writable_u32 (memory (fresh_driver 56 0)) 4096"
    "unat (VQueueIdBegin consts_7x8) + unat (MaxPipeId consts_7x8) * unat (MaxPipeId consts_7x8)
       + unat (MaxQueueId consts_7x8) \<le> 2 ^ 31"
    "slots_declared consts_7x8 (fresh_driver 56 0)"
    "slots_declared consts_7x8 (fresh_driver 56 0)"
    by (simp_all add: consts_7x8_def isPowerOfTwo_def writable_u32_def fresh_driver_def
        slots_declared_def word_less_nat_alt)
  note w = mapComputeQueue_stride_collision [of consts_7x8 256 64 4096 "fresh_driver 56 0"
      "fresh_driver 56 0", OF h]
  have v: "MaxPipeId consts_7x8 = 7" "VQueueIdBegin consts_7x8 + 7 = 8"
    by (simp_all add: consts_7x8_def)
  from w show ?thesis unfolding v by simp
qed

section \<open>Properties of unmapping\<close>

lemma valid_index_in_bounds:
  assumes v: "valid_vqueue_id c vqueueId" and slots: "slots_declared c s"
  shows "unat (vqueueId - VQueueIdBegin c) < length (m_computeQueues s)"
proof -
  have le: "VQueueIdBegin c \<le> vqueueId" and lt: "vqueueId < MaxComputeQueueCount c"
    using v by (simp_all add: valid_vqueue_id_def)
  have "unat (vqueueId - VQueueIdBegin c) = unat vqueueId - unat (VQueueIdBegin c)"
    using le by (simp add: unat_sub)
  also have "\<dots> < unat (MaxComputeQueueCount c)"
    using lt by (simp add: word_less_nat_alt less_imp_diff_less)
  finally show ?thesis using slots by (simp add: slots_declared_def)
qed

lemma unmap_in_range:
  assumes v: "valid_vqueue_id c vqueueId" and slots: "slots_declared c s"
  shows "unmapComputeQueue c s vqueueId
        = Inr (s\<lparr>m_computeQueues :=
                   (m_computeQueues s)[unat (vqueueId - VQueueIdBegin c) := None]\<rparr>)"
proof -
  have nge: "\<not> MaxComputeQueueCount c \<le> vqueueId"
    using v by (simp add: valid_vqueue_id_def not_le)
  show ?thesis
    using nge valid_index_in_bounds [OF v slots]
    by (simp add: unmapComputeQueue_def Let_def)
qed

text \<open>
  C4. \<^verbatim>\<open>unmapComputeQueue\<close> tests its argument against
  \<^verbatim>\<open>MaxComputeQueueCount\<close> only: an id at or above it is logged as an error and
  nothing else changes, and an id in the valid range empties its slot, at index
  \<^verbatim>\<open>vqueueId - VQueueIdBegin\<close>. An id below \<^verbatim>\<open>VQueueIdBegin\<close> is outside the valid range
  \<open>[VQueueIdBegin, MaxComputeQueueCount)\<close> too, but when it is also below
  \<^verbatim>\<open>MaxComputeQueueCount\<close> it passes that test; \<^verbatim>\<open>vqueueId - VQueueIdBegin\<close>
  then wraps around and the array of \<^verbatim>\<open>MaxComputeQueueCount\<close> slots is indexed out
  of bounds. This holds for every value of the constants; such an id exists as soon as
  \<^verbatim>\<open>VQueueIdBegin\<close> is not zero.
\<close>

theorem unmapComputeQueue_below_begin_faults:
  assumes below: "vqueueId < VQueueIdBegin c"
    and small: "vqueueId < MaxComputeQueueCount c"
    and slots: "slots_declared c s"
    and fit: "unat (VQueueIdBegin c) + unat (MaxComputeQueueCount c) \<le> 2 ^ 32"
  shows "\<not> valid_vqueue_id c vqueueId \<and>
     unmapComputeQueue c s vqueueId = Inl OutOfBounds \<and>
     (\<forall>above. MaxComputeQueueCount c \<le> above \<longrightarrow>
        unmapComputeQueue c s above
          = Inr (s\<lparr>err_log := err_log s @ [''vqueueId is larger than max queue count.'']\<rparr>)) \<and>
     (\<forall>inside. valid_vqueue_id c inside \<longrightarrow>
        unmapComputeQueue c s inside
          = Inr (s\<lparr>m_computeQueues :=
                     (m_computeQueues s)[unat (inside - VQueueIdBegin c) := None]\<rparr>))"
proof -
  have lt: "unat vqueueId < unat (VQueueIdBegin c)"
    using below by (simp add: word_less_nat_alt)
  have vb: "unat (VQueueIdBegin c) < 2 ^ 32"
    using unsigned_less [of "VQueueIdBegin c", where 'a = nat] by simp
  have "unat (vqueueId - VQueueIdBegin c)
      = unat vqueueId + 2 ^ 32 - unat (VQueueIdBegin c)"
    using lt by (simp add: unat_sub_if' word_size)
  then have "unat (MaxComputeQueueCount c) \<le> unat (vqueueId - VQueueIdBegin c)"
    using fit lt vb by linarith
  then have "\<not> unat (vqueueId - VQueueIdBegin c) < length (m_computeQueues s)"
    using slots by (simp add: slots_declared_def)
  then have b: "unmapComputeQueue c s vqueueId = Inl OutOfBounds"
    using small by (simp add: unmapComputeQueue_def Let_def not_le [symmetric])
  have a: "\<not> valid_vqueue_id c vqueueId"
    using below by (simp add: valid_vqueue_id_def not_le)
  have d: "\<forall>above. MaxComputeQueueCount c \<le> above \<longrightarrow>
        unmapComputeQueue c s above
          = Inr (s\<lparr>err_log := err_log s @ [''vqueueId is larger than max queue count.'']\<rparr>)"
    by (simp add: unmapComputeQueue_def LOG_ERR_def)
  have e: "\<forall>inside. valid_vqueue_id c inside \<longrightarrow>
        unmapComputeQueue c s inside
          = Inr (s\<lparr>m_computeQueues :=
                     (m_computeQueues s)[unat (inside - VQueueIdBegin c) := None]\<rparr>)"
    using unmap_in_range [OF _ slots] by blast
  show ?thesis by (rule conjI [OF a conjI [OF b conjI [OF d e]]])
qed

theorem unmapComputeQueue_below_begin_faults_witness:
  "\<not> valid_vqueue_id consts_7x8 0 \<and>
   unmapComputeQueue consts_7x8 (fresh_driver 56 0) 0 = Inl OutOfBounds \<and>
   unmapComputeQueue consts_7x8 (fresh_driver 56 0) 56
     = Inr ((fresh_driver 56 0)\<lparr>err_log := [''vqueueId is larger than max queue count.'']\<rparr>)"
proof -
  have h: "(0 :: 32 word) < VQueueIdBegin consts_7x8"
    "(0 :: 32 word) < MaxComputeQueueCount consts_7x8"
    "slots_declared consts_7x8 (fresh_driver 56 0)"
    "unat (VQueueIdBegin consts_7x8) + unat (MaxComputeQueueCount consts_7x8) \<le> 2 ^ 32"
    by (simp_all add: consts_7x8_def slots_declared_def fresh_driver_def)
  note w = unmapComputeQueue_below_begin_faults [of 0 consts_7x8 "fresh_driver 56 0", OF h]
  have top: "MaxComputeQueueCount consts_7x8 \<le> 56" by (simp add: consts_7x8_def)
  have "unmapComputeQueue consts_7x8 (fresh_driver 56 0) 56
     = Inr ((fresh_driver 56 0)\<lparr>err_log := err_log (fresh_driver 56 0)
          @ [''vqueueId is larger than max queue count.'']\<rparr>)"
    using w [THEN conjunct2, THEN conjunct2, THEN conjunct1, rule_format, OF top] .
  then show ?thesis using w by (simp add: fresh_driver_def)
qed

section \<open>Properties of submission\<close>

lemma submitPresent_no_assert: "submitPresent bk s cl \<noteq> Inl AssertionFailed"
  by (simp add: submitPresent_def split: option.splits prod.splits)

lemma submitPresent_sce_ok_no_assert:
  "(case submitPresent bk s cl of Inl f \<Rightarrow> Inl f | Inr s2 \<Rightarrow> Inr (SCE_OK, s2))
     \<noteq> Inl AssertionFailed"
  using submitPresent_no_assert [of bk s cl] by (cases "submitPresent bk s cl") simp_all

text \<open>
  C5. \<^verbatim>\<open>submitAndFlipCommandBuffers\<close> accepts exactly one command buffer per
  call: with a count other than 1 the call ends in the failed assertion, whatever the
  other arguments and the state are, and so returns no status code; with a count of 1
  the assertion does not fail.
\<close>

theorem submit_count_assertion:
  "(count \<noteq> 1 \<longrightarrow>
      submitAndFlipCommandBuffers bk s count dcbGpuAddrs dcbSizesInBytes ccbGpuAddrs
        ccbSizesInBytes videoOutHandle displayBufferIndex flipMode flipArg
      = Inl AssertionFailed) \<and>
   (count = 1 \<longrightarrow>
      submitAndFlipCommandBuffers bk s count dcbGpuAddrs dcbSizesInBytes ccbGpuAddrs
        ccbSizesInBytes videoOutHandle displayBufferIndex flipMode flipArg
      \<noteq> Inl AssertionFailed)"
proof (intro conjI impI)
  assume "count \<noteq> 1"
  then show "submitAndFlipCommandBuffers bk s count dcbGpuAddrs dcbSizesInBytes ccbGpuAddrs
        ccbSizesInBytes videoOutHandle displayBufferIndex flipMode flipArg
      = Inl AssertionFailed"
    by (simp add: submitAndFlipCommandBuffers_def LOG_ASSERT_def)
next
  assume "count = 1"
  then show "submitAndFlipCommandBuffers bk s count dcbGpuAddrs dcbSizesInBytes ccbGpuAddrs
        ccbSizesInBytes videoOutHandle displayBufferIndex flipMode flipArg
      \<noteq> Inl AssertionFailed"
    by (cases dcbGpuAddrs; cases dcbSizesInBytes)
      (simp_all add: submitAndFlipCommandBuffers_def LOG_ASSERT_def Let_def
        submitPresent_sce_ok_no_assert)
qed

theorem submit_count_assertion_witness:
  "submitAndFlipCommandBuffers counting_backend ((fresh_driver 56 0)\<lparr>m_presenter := Some 1\<rparr>)
      2 [4096, 8192] [16, 16] [0, 0] [0, 0] 0 0 0 0 = Inl AssertionFailed \<and>
   submitAndFlipCommandBuffers counting_backend ((fresh_driver 56 0)\<lparr>m_presenter := Some 1\<rparr>)
      0 [] [] [] [] 0 0 0 0 = Inl AssertionFailed \<and>
   submitAndFlipCommandBuffers counting_backend ((fresh_driver 56 0)\<lparr>m_presenter := Some 1\<rparr>)
      1 [4096] [16] [0] [0] 0 0 0 0 \<noteq> Inl AssertionFailed"
  using submit_count_assertion [of 2 counting_backend
        "(fresh_driver 56 0)\<lparr>m_presenter := Some 1\<rparr>"
        "[4096, 8192]" "[16, 16]" "[0, 0]" "[0, 0]" 0 0 0 0]
    submit_count_assertion [of 0 counting_backend
        "(fresh_driver 56 0)\<lparr>m_presenter := Some 1\<rparr>" "[]" "[]" "[]" "[]" 0 0 0 0]
    submit_count_assertion [of 1 counting_backend
        "(fresh_driver 56 0)\<lparr>m_presenter := Some 1\<rparr>" "[4096]" "[16]" "[0]" "[0]" 0 0 0 0]
  by simp

text \<open>
  C6, amended. A call of \<^verbatim>\<open>submitAndFlipCommandBuffers\<close> with a count of 1 and
  arrays of that many elements, made when the presenter exists (\<^verbatim>\<open>m_presenter\<close> is
  not null), makes exactly four calls on its collaborators, in this order and after
  whatever calls were made before: the graphics queue records the command built from
  the first draw command buffer address and size; the presenter acquires the next
  image and hands out the synchronisation pair; the graphics queue is given the
  submission that pairs the recorded command list with the acquire semaphore to wait on
  and the present semaphore to wake; the graphics queue is asked to present and is
  passed that same presenter, not the pair. Nothing else in the driver changes and the
  call returns \<^verbatim>\<open>SCE_OK\<close>.
\<close>

theorem submit_four_steps:
  assumes count: "count = 1"
    and dcb: "length dcbGpuAddrs = unat count"
    and sizes: "length dcbSizesInBytes = unat count"
    and pres: "m_presenter s = Some presenter"
  shows "submitAndFlipCommandBuffers bk s count dcbGpuAddrs dcbSizesInBytes ccbGpuAddrs
        ccbSizesInBytes videoOutHandle displayBufferIndex flipMode flipArg
      = Inr (SCE_OK,
          s\<lparr>calls := calls s @
            [Queue_record \<lparr>buffer = dcbGpuAddrs ! 0, size = dcbSizesInBytes ! 0\<rparr>,
             Presenter_acquireNextImage presenter,
             Queue_submit
               \<lparr>cmdList = record_result bk (calls s)
                            \<lparr>buffer = dcbGpuAddrs ! 0, size = dcbSizesInBytes ! 0\<rparr>,
                wait = sync_acquire (fst (acquire_result bk (calls s @
                  [Queue_record \<lparr>buffer = dcbGpuAddrs ! 0, size = dcbSizesInBytes ! 0\<rparr>]))),
                wake = sync_present (fst (acquire_result bk (calls s @
                  [Queue_record \<lparr>buffer = dcbGpuAddrs ! 0, size = dcbSizesInBytes ! 0\<rparr>])))\<rparr>,
             Queue_present presenter]\<rparr>)"
proof -
  obtain a where a: "dcbGpuAddrs = [a]"
    using dcb count by (cases dcbGpuAddrs) simp_all
  obtain z where z: "dcbSizesInBytes = [z]"
    using sizes count by (cases dcbSizesInBytes) simp_all
  show ?thesis
    using count pres
    by (simp add: a z submitAndFlipCommandBuffers_def LOG_ASSERT_def submitPresent_def
        backend_invoke_def Let_def split: prod.splits)
qed

theorem submit_four_steps_witness:
  "submitAndFlipCommandBuffers counting_backend ((fresh_driver 56 0)\<lparr>m_presenter := Some 1\<rparr>)
      1 [4096] [16] [0] [0] 0 0 0 0
   = Inr (SCE_OK, (fresh_driver 56 0)\<lparr>m_presenter := Some 1,
        calls := [Queue_record \<lparr>buffer = 4096, size = 16\<rparr>,
                  Presenter_acquireNextImage 1,
                  Queue_submit \<lparr>cmdList = 0, wait = 2, wake = 3\<rparr>,
                  Queue_present 1]\<rparr>)"
  using submit_four_steps [of 1 "[4096]" "[16]" "(fresh_driver 56 0)\<lparr>m_presenter := Some 1\<rparr>" 1
      counting_backend "[0]" "[0]" 0 0 0 0]
  by (simp add: fresh_driver_def counting_backend_def)

text \<open>
  Without a presenter the statement fails: \<^verbatim>\<open>m_presenter\<close> is set by
  \<^verbatim>\<open>createPresenter\<close> only and \<^verbatim>\<open>submitPresent\<close> calls through it unchecked
  (line 149). On a driver whose presenter has not been created, a call with a count of
  1 and one command buffer does not return \<^verbatim>\<open>SCE_OK\<close>: it ends in the call through
  the null pointer, before any image is acquired, submitted or presented.
\<close>

theorem submit_without_presenter:
  "m_presenter (fresh_driver 56 0) = None \<and>
   submitAndFlipCommandBuffers counting_backend (fresh_driver 56 0)
      1 [4096] [16] [0] [0] 0 0 0 0 = Inl NullPointer"
  by (simp add: submitAndFlipCommandBuffers_def LOG_ASSERT_def submitPresent_def
      fresh_driver_def backend_invoke_def)

end
